theory Spec2Isabelle
  imports Main "HOL-Library.Word"
begin

unbundle bit_operations_syntax

section \<open>Errors\<close>

text \<open>
  The error values of the package (\<open>ErrWorkerDead\<close>, \<open>ErrWorkerDraining\<close>,
  \<open>ErrNoWorkers\<close>), the two sentinel errors of Go's \<open>io\<close> package that the code compares
  against by identity, and every other error, carried by its message.
\<close>

datatype error =
    ErrWorkerDead
  | ErrWorkerDraining
  | ErrNoWorkers
  | EOF
  | ErrUnexpectedEOF
  | ErrOther string

text \<open>\<open>err.Error()\<close>: the message of an error.\<close>

fun Error :: "error \<Rightarrow> string" where
  "Error ErrWorkerDead = ''worker is dead''"
| "Error ErrWorkerDraining = ''worker is draining''"
| "Error ErrNoWorkers = ''no workers available''"
| "Error EOF = ''EOF''"
| "Error ErrUnexpectedEOF = ''unexpected EOF''"
| "Error (ErrOther msg) = msg"

section \<open>Strings\<close>

definition HasPrefix :: "string \<Rightarrow> string \<Rightarrow> bool" where
  "HasPrefix s p = (take (length p) s = p)"

text \<open>\<open>strings.Contains(s, substr)\<close>.\<close>

fun Contains :: "string \<Rightarrow> string \<Rightarrow> bool" where
  "Contains [] substr = (substr = [])"
| "Contains (c # s) substr = (if HasPrefix (c # s) substr then True else Contains s substr)"

text \<open>\<open>strings.Join(elems, sep)\<close>.\<close>

fun Join :: "string list \<Rightarrow> string \<Rightarrow> string" where
  "Join [] sep = []"
| "Join [x] sep = x"
| "Join (x # y # ys) sep = x @ sep @ Join (y # ys) sep"

text \<open>
  \<open>strings.ToLower\<close> on header names. Header names are ASCII, and on ASCII the function
  maps \<open>A\<close>..\<open>Z\<close> to \<open>a\<close>..\<open>z\<close> and leaves every other byte as it is.
\<close>

definition lower_char :: "char \<Rightarrow> char" where
  "lower_char c =
     (let n = (of_char c :: nat) in if 65 \<le> n \<and> n \<le> 90 then char_of (n + 32) else c)"

definition ToLower :: "string \<Rightarrow> string" where
  "ToLower s = map lower_char s"

section \<open>Payloads\<close>

text \<open>
  Modelled from the spec: the types \<open>RequestPayload\<close>, \<open>ResponsePayload\<close> and
  \<open>StreamFrame\<close>, whose declarations are in a file of the package that is missing from
  the sources. The fields are the ones of the wire format, which are the ones the code
  reads (\<open>r.Method\<close>, \<open>r.Path\<close>, \<open>r.Body\<close>, \<open>frame.Type\<close>, \<open>frame.Status\<close>,
  \<open>frame.Headers\<close>, \<open>frame.Data\<close>, \<open>frame.Error\<close>). A Go map is iterated in an
  order the runtime chooses: \<open>frame.Headers\<close> is the list of its entries in the order
  of that iteration, \<open>None\<close> for the nil map.
\<close>

type_synonym byte = "8 word"

record RequestPayload =
  req_ID :: string
  req_Method :: string
  req_Path :: string
  req_Headers :: "(string \<times> string) list"
  req_Body :: string

record ResponsePayload =
  resp_Status :: int
  resp_Headers :: "(string \<times> string) list"
  resp_Body :: string

record StreamFrame =
  frame_Type :: string
  frame_Status :: int
  frame_Headers :: "(string \<times> string list) list option"
  frame_Data :: string
  frame_Error :: string

text \<open>
  What the code takes from Go's standard library and does not define itself: the JSON
  codec for the three payload types, the rendering of a \<open>time.Duration\<close> (the verb
  \<open>%s\<close>) and the quoting of a string (the verb \<open>%q\<close>).
\<close>

record env =
  json_Marshal :: "RequestPayload \<Rightarrow> error + byte list"
  json_Unmarshal_response :: "byte list \<Rightarrow> error + ResponsePayload"
  json_Unmarshal_frame :: "byte list \<Rightarrow> error + StreamFrame"
  Duration_String :: "int \<Rightarrow> string"
  strconv_Quote :: "string \<Rightarrow> string"

section \<open>Big-endian lengths\<close>

text \<open>\<open>binary.BigEndian.PutUint32\<close> and \<open>binary.BigEndian.Uint32\<close>.\<close>

definition PutUint32 :: "32 word \<Rightarrow> byte list" where
  "PutUint32 v = [ucast (drop_bit 24 v), ucast (drop_bit 16 v), ucast (drop_bit 8 v), ucast v]"

definition Uint32 :: "byte list \<Rightarrow> 32 word" where
  "Uint32 b =
     (push_bit 24 (ucast (b ! 0)) OR push_bit 16 (ucast (b ! 1))
        OR push_bit 8 (ucast (b ! 2)) OR ucast (b ! 3))"

section \<open>The child process and its pipes\<close>

text \<open>
  A worker owns a child process and talks to it over the child's standard input and
  standard output. What the child does is not decided by the program: \<open>stdin_res\<close> gives
  the outcome of each \<open>Write\<close> on the child's standard input, in order; \<open>stdout_data\<close>
  is what the child still writes to its standard output in time, and \<open>stdout_end\<close> what
  a read finds after that: the end of the stream, an error, or nothing at all (the
  child is alive and silent, the read blocks). \<open>stdin_log\<close> records the bytes written,
  \<open>closed\<close> and \<open>killed\<close> that the pipes were closed and the process killed and reaped.
\<close>

datatype stream_end = AtEOF | Fails error | Silent

record Proc =
  stdin_log :: "byte list"
  stdin_calls :: nat
  stdin_res :: "nat \<Rightarrow> error option"
  stdout_data :: "byte list"
  stdout_end :: stream_end
  closed :: bool
  killed :: bool

text \<open>\<open>w.stdin.Write(p)\<close>: the error, \<open>None\<close> for nil.\<close>

definition Write :: "byte list \<Rightarrow> Proc \<Rightarrow> error option \<times> Proc" where
  "Write bs p =
     (case stdin_res p (stdin_calls p) of
        None \<Rightarrow> (None, p\<lparr>stdin_log := stdin_log p @ bs, stdin_calls := Suc (stdin_calls p)\<rparr>)
      | Some err \<Rightarrow> (Some err, p\<lparr>stdin_calls := Suc (stdin_calls p)\<rparr>))"

text \<open>
  \<open>io.ReadFull(w.stdout, buf)\<close> with \<open>len(buf) = n\<close>: the bytes read, an error
  (\<open>io.EOF\<close> when nothing was read, \<open>io.ErrUnexpectedEOF\<close> when the stream ended after
  some bytes, the error of the stream otherwise), or a read that never returns.
\<close>

datatype read_result = Got "byte list" | ReadErr error | ReadBlocks

definition ReadFull :: "nat \<Rightarrow> Proc \<Rightarrow> read_result \<times> Proc" where
  "ReadFull n p =
     (if n \<le> length (stdout_data p)
      then (Got (take n (stdout_data p)), p\<lparr>stdout_data := drop n (stdout_data p)\<rparr>)
      else (case stdout_end p of
              AtEOF \<Rightarrow> (ReadErr (if stdout_data p = [] then EOF else ErrUnexpectedEOF),
                        p\<lparr>stdout_data := []\<rparr>)
            | Fails err \<Rightarrow> (ReadErr err, p\<lparr>stdout_data := []\<rparr>)
            | Silent \<Rightarrow> (ReadBlocks, p\<lparr>stdout_data := []\<rparr>)))"

text \<open>\<open>w.stdin.Close()\<close>, \<open>w.stdout.Close()\<close> and \<open>Process.Kill()\<close> with \<open>Process.Wait()\<close>.\<close>

definition Close :: "Proc \<Rightarrow> Proc" where
  "Close p = p\<lparr>closed := True\<rparr>"

definition Kill :: "Proc \<Rightarrow> Proc" where
  "Kill p = p\<lparr>killed := True\<rparr>"

section \<open>Worker\<close>

datatype WorkerState = WorkerIdle | WorkerBusy | WorkerDraining | WorkerDead

text \<open>
  The fields of the \<open>Worker\<close> struct. \<open>cmd\<close>, \<open>stdin\<close> and \<open>stdout\<close> are set together
  by \<open>NewWorker\<close> and by \<open>restart\<close>: they are the field \<open>proc\<close>. \<open>mu_locked\<close> says that
  the mutex \<open>mu\<close> is held. The last two fields are not in the struct: \<open>spawn\<close> gives
  the outcome of each later start of a child process of this worker (\<open>StdinPipe\<close>,
  \<open>StdoutPipe\<close>, \<open>Start\<close>: an error or the new process), and \<open>spawned\<close> counts the starts made.
  The model runs one call at a time: no other goroutine changes the worker during a call.
\<close>

record Worker =
  proc :: Proc
  mu_locked :: bool
  dead :: bool
  maxRequests :: int
  requestTimeout :: int
  requestCount :: "64 word"
  state :: WorkerState
  inFlight :: int
  spawn :: "nat \<Rightarrow> error + Proc"
  spawned :: nat

definition isDead :: "Worker \<Rightarrow> bool" where
  "isDead w = dead w"

definition markDead :: "Worker \<Rightarrow> Worker" where
  "markDead w = w\<lparr>dead := True, state := WorkerDead\<rparr>"

definition setState :: "WorkerState \<Rightarrow> Worker \<Rightarrow> Worker" where
  "setState s w = w\<lparr>state := s\<rparr>"

definition getState :: "Worker \<Rightarrow> WorkerState" where
  "getState w = state w"

definition incrInFlight :: "Worker \<Rightarrow> Worker" where
  "incrInFlight w = w\<lparr>inFlight := inFlight w + 1\<rparr>"

definition decrInFlight :: "Worker \<Rightarrow> Worker" where
  "decrInFlight w = (if inFlight w > 0 then w\<lparr>inFlight := inFlight w - 1\<rparr> else w)"

definition getInFlight :: "Worker \<Rightarrow> int" where
  "getInFlight w = inFlight w"

definition startDraining :: "Worker \<Rightarrow> Worker" where
  "startDraining w = (if state w \<noteq> WorkerDead then w\<lparr>state := WorkerDraining\<rparr> else w)"

definition isDraining :: "Worker \<Rightarrow> bool" where
  "isDraining w = (state w = WorkerDraining)"

text \<open>
  \<open>restart\<close>. The result is \<open>None\<close> when the call never returns (\<open>mu\<close> is a
  \<open>sync.Mutex\<close>: locking it while it is held blocks), \<open>Some None\<close> for nil and
  \<open>Some (Some err)\<close> for an error. The old pipes are closed and the old process killed
  before the new one is started; when the start fails the worker keeps the old ones.
\<close>

definition restart :: "Worker \<Rightarrow> error option option \<times> Worker" where
  "restart w =
     (if mu_locked w then (None, w)
      else
        let w1 = w\<lparr>proc := Kill (Close (proc w)), spawned := Suc (spawned w)\<rparr> in
        (case spawn w (spawned w) of
           Inl err \<Rightarrow> (Some (Some err), w1)
         | Inr p \<Rightarrow>
             (Some None,
              w1\<lparr>proc := p, dead := False, state := WorkerIdle, inFlight := 0,
                 requestCount := 0\<rparr>)))"

text \<open>
  \<open>NewWorker\<close>: the first start of the child process, and the struct it returns.
\<close>

definition NewWorker :: "(nat \<Rightarrow> error + Proc) \<Rightarrow> int \<Rightarrow> int \<Rightarrow> error + Worker" where
  "NewWorker sp maxReq timeout =
     (case sp 0 of
        Inl err \<Rightarrow> Inl err
      | Inr p \<Rightarrow>
          Inr \<lparr>proc = p, mu_locked = False, dead = False, maxRequests = maxReq,
               requestTimeout = timeout, requestCount = 0, state = WorkerIdle, inFlight = 0,
               spawn = sp, spawned = 1\<rparr>)"

subsection \<open>Unary requests\<close>

definition isBrokenPipe :: "error option \<Rightarrow> bool" where
  "isBrokenPipe e =
     (case e of
        None \<Rightarrow> False
      | Some err \<Rightarrow>
          (let errStr = Error err in
           err = EOF \<or> err = ErrUnexpectedEOF \<or> Contains errStr ''broken pipe''
             \<or> Contains errStr ''write |1:'' \<or> Contains errStr ''read |0:''))"

text \<open>
  The goroutine of \<open>handleRequest\<close> that reads one response: the value it sends on
  \<open>resCh\<close>, or \<open>None\<close> when it sends nothing because a read blocks.
\<close>

definition handleRequest_read :: "env \<Rightarrow> Proc \<Rightarrow> (error + ResponsePayload) option \<times> Proc" where
  "handleRequest_read E p =
     (case ReadFull 4 p of
        (ReadBlocks, p1) \<Rightarrow> (None, p1)
      | (ReadErr err, p1) \<Rightarrow> (Some (Inl err), p1)
      | (Got hdr, p1) \<Rightarrow>
          (let respLen = Uint32 hdr in
           if respLen = 0 \<or> respLen > 10 * 1024 * 1024 then (Some (Inl ErrUnexpectedEOF), p1)
           else (case ReadFull (unat respLen) p1 of
                   (ReadBlocks, p2) \<Rightarrow> (None, p2)
                 | (ReadErr err, p2) \<Rightarrow> (Some (Inl err), p2)
                 | (Got respJSON, p2) \<Rightarrow>
                     (case json_Unmarshal_response E respJSON of
                        Inl err \<Rightarrow> (Some (Inl err), p2)
                      | Inr resp \<Rightarrow> (Some (Inr resp), p2)))))"

text \<open>
  \<open>handleRequest\<close> between \<open>w.mu.Lock()\<close> and the deferred \<open>w.mu.Unlock()\<close>. The
  result is \<open>None\<close> when the call never returns: no timeout is configured and the
  response never comes.
\<close>

definition handleRequest_locked ::
  "env \<Rightarrow> Worker \<Rightarrow> RequestPayload \<Rightarrow> (error + ResponsePayload) option \<times> Worker" where
  "handleRequest_locked E w payload =
     (case json_Marshal E payload of
        Inl err \<Rightarrow> (Some (Inl err), w)
      | Inr jsonBytes \<Rightarrow>
          (let len = (word_of_nat (length jsonBytes) :: 32 word);
               header = PutUint32 len
           in case Write header (proc w) of
                (Some err, p1) \<Rightarrow> (Some (Inl err), w\<lparr>proc := p1\<rparr>)
              | (None, p1) \<Rightarrow>
                  (case Write jsonBytes p1 of
                     (Some err, p2) \<Rightarrow> (Some (Inl err), w\<lparr>proc := p2\<rparr>)
                   | (None, p2) \<Rightarrow>
                       (case handleRequest_read E p2 of
                          (Some res, p3) \<Rightarrow> (Some res, w\<lparr>proc := p3\<rparr>)
                        | (None, p3) \<Rightarrow>
                            if requestTimeout w > 0
                            then (Some (Inl (ErrOther (''worker request timeout after ''
                                         @ Duration_String E (requestTimeout w)))),
                                  (markDead (w\<lparr>proc := p3\<rparr>))\<lparr>proc := Kill p3\<rparr>)
                            else (None, w\<lparr>proc := p3\<rparr>)))))"

definition handleRequest ::
  "env \<Rightarrow> Worker \<Rightarrow> RequestPayload \<Rightarrow> (error + ResponsePayload) option \<times> Worker" where
  "handleRequest E w payload =
     (if mu_locked w then (None, w)
      else (case handleRequest_locked E (w\<lparr>mu_locked := True\<rparr>) payload of
              (None, w') \<Rightarrow> (None, w')
            | (Some res, w') \<Rightarrow> (Some res, w'\<lparr>mu_locked := False\<rparr>)))"

text \<open>
  One pass through the body of the loop of \<open>Handle\<close>: the loop goes on
  (\<open>continue\<close>) or the function returns a result, \<open>None\<close> when the call never returns.
\<close>

datatype 'a loop = Continue | Return 'a

definition Handle_attempt ::
  "env \<Rightarrow> Worker \<Rightarrow> RequestPayload \<Rightarrow> (error + ResponsePayload) option loop \<times> Worker" where
  "Handle_attempt E w payload =
     (case (if isDead w then restart w else (Some None, w)) of
        (None, w1) \<Rightarrow> (Return None, w1)
      | (Some (Some err), w1) \<Rightarrow> (Return (Some (Inl err)), w1)
      | (Some None, w1) \<Rightarrow>
          (case handleRequest E w1 payload of
             (None, w2) \<Rightarrow> (Return None, w2)
           | (Some (Inl err), w2) \<Rightarrow>
               if isBrokenPipe (Some err) then (Continue, markDead w2)
               else (Return (Some (Inl err)), w2)
           | (Some (Inr resp), w2) \<Rightarrow>
               (let n = requestCount w2 + 1;
                    w3 = w2\<lparr>requestCount := n\<rparr>
                in (Return (Some (Inr resp)),
                    if maxRequests w3 > 0 \<and> sint n \<ge> maxRequests w3 then markDead w3 else w3))))"

function Handle_loop ::
  "env \<Rightarrow> nat \<Rightarrow> Worker \<Rightarrow> RequestPayload \<Rightarrow> (error + ResponsePayload) option \<times> Worker" where
  "Handle_loop E attempt w payload =
     (if attempt < 2
      then (case Handle_attempt E w payload of
              (Continue, w') \<Rightarrow> Handle_loop E (attempt + 1) w' payload
            | (Return r, w') \<Rightarrow> (r, w'))
      else (Some (Inl ErrUnexpectedEOF), w))"
  by pat_completeness auto
termination
  by (relation "measure (\<lambda>(E, attempt, w, payload). 2 - attempt)") auto

declare Handle_loop.simps [simp del]

text \<open>The deferred function of \<open>Handle\<close>.\<close>

definition Handle_deferred :: "Worker \<Rightarrow> Worker" where
  "Handle_deferred w =
     (let w1 = decrInFlight w in
      if getInFlight w1 = 0 \<and> isDraining w1 then markDead w1
      else if \<not> isDead w1 then setState WorkerIdle w1
      else w1)"

definition Handle ::
  "env \<Rightarrow> Worker \<Rightarrow> RequestPayload \<Rightarrow> (error + ResponsePayload) option \<times> Worker" where
  "Handle E w payload =
     (if isDead w then (Some (Inl ErrWorkerDead), w)
      else if isDraining w then (Some (Inl ErrWorkerDraining), w)
      else (case Handle_loop E 0 (setState WorkerBusy (incrInFlight w)) payload of
              (None, w') \<Rightarrow> (None, w')
            | (Some r, w') \<Rightarrow> (Some r, Handle_deferred w')))"

subsection \<open>Streaming requests\<close>

text \<open>
  The sink is an \<open>http.ResponseWriter\<close>, an interface: the model records the calls
  made on it, in order. \<open>write_res\<close> gives the outcome of each \<open>Write\<close>, in order, and
  \<open>is_Flusher\<close> says whether the sink is an \<open>http.Flusher\<close>.
\<close>

datatype rw_call =
    HeaderAdd string string
  | HeaderSet string string
  | WriteHeader int
  | WriteBody string
  | Flush

record ResponseWriter =
  calls :: "rw_call list"
  write_calls :: nat
  write_res :: "nat \<Rightarrow> error option"
  is_Flusher :: bool

definition rw_call :: "rw_call \<Rightarrow> ResponseWriter \<Rightarrow> ResponseWriter" where
  "rw_call c rw = rw\<lparr>calls := calls rw @ [c]\<rparr>"

text \<open>\<open>rw.Write([]byte(data))\<close>: the error, \<open>None\<close> for nil.\<close>

definition rw_Write :: "string \<Rightarrow> ResponseWriter \<Rightarrow> error option \<times> ResponseWriter" where
  "rw_Write data rw =
     (write_res rw (write_calls rw),
      rw\<lparr>calls := calls rw @ [WriteBody data], write_calls := Suc (write_calls rw)\<rparr>)"

text \<open>\<open>if f, ok := rw.(http.Flusher); ok { f.Flush() }\<close>.\<close>

definition rw_Flush :: "ResponseWriter \<Rightarrow> ResponseWriter" where
  "rw_Flush rw = (if is_Flusher rw then rw_call Flush rw else rw)"

text \<open>The body of the loop over \<open>frame.Headers\<close>, for one entry of the map.\<close>

definition apply_header :: "ResponseWriter \<Rightarrow> string \<times> string list \<Rightarrow> ResponseWriter" where
  "apply_header rw kvs =
     (case kvs of (k, vs) \<Rightarrow>
        if length vs = 0 then rw
        else if ToLower k = ''set-cookie'' then foldl (\<lambda>r v. rw_call (HeaderAdd k v) r) rw vs
        else rw_call (HeaderSet k (Join vs '', '')) rw)"

text \<open>
  The \<open>switch frame.Type\<close> of \<open>streamInternal\<close>: the loop goes on with new values
  of \<open>headersSent\<close> and \<open>statusCode\<close>, or the function returns.
\<close>

datatype frame_step = Next bool int | Stop "error + unit"

definition streamInternal_switch ::
  "env \<Rightarrow> StreamFrame \<Rightarrow> ResponseWriter \<Rightarrow> bool \<Rightarrow> int \<Rightarrow> frame_step \<times> ResponseWriter" where
  "streamInternal_switch E frame rw headersSent statusCode =
     (if frame_Type frame = ''headers'' then
        (let rw1 = (case frame_Headers frame of
                      None \<Rightarrow> rw
                    | Some hs \<Rightarrow> foldl apply_header rw hs);
             statusCode1 = (if frame_Status frame \<noteq> 0 then frame_Status frame else statusCode);
             rw2 = rw_call (WriteHeader statusCode1) rw1
         in if frame_Data frame \<noteq> [] then
              (case rw_Write (frame_Data frame) rw2 of
                 (Some err, rw3) \<Rightarrow> (Stop (Inl err), rw3)
               | (None, rw3) \<Rightarrow> (Next True statusCode1, rw_Flush rw3))
            else (Next True statusCode1, rw2))
      else if frame_Type frame = ''chunk'' then
        (let rw1 = (if \<not> headersSent then rw_call (WriteHeader statusCode) rw else rw)
         in if frame_Data frame \<noteq> [] then
              (case rw_Write (frame_Data frame) rw1 of
                 (Some err, rw2) \<Rightarrow> (Stop (Inl err), rw2)
               | (None, rw2) \<Rightarrow> (Next True statusCode, rw_Flush rw2))
            else (Next True statusCode, rw1))
      else if frame_Type frame = ''end'' then (Stop (Inr ()), rw)
      else if frame_Type frame = ''error'' then
        (Stop (Inl (ErrOther (''stream error from worker: '' @ frame_Error frame))), rw)
      else
        (Stop (Inl (ErrOther (''unknown stream frame type: ''
                               @ strconv_Quote E (frame_Type frame)))), rw))"

text \<open>
  Reading one frame in the loop of \<open>streamInternal\<close> (steps 2 and 3 and the decoding):
  the frame, an error after which the worker is marked dead, or a read that blocks.
\<close>

datatype frame_read = Frame StreamFrame | FrameErr error | FrameBlocks

definition streamInternal_read :: "env \<Rightarrow> Proc \<Rightarrow> frame_read \<times> Proc" where
  "streamInternal_read E p =
     (case ReadFull 4 p of
        (ReadBlocks, p1) \<Rightarrow> (FrameBlocks, p1)
      | (ReadErr err, p1) \<Rightarrow> (FrameErr err, p1)
      | (Got hdr, p1) \<Rightarrow>
          (let frameLen = Uint32 hdr in
           if frameLen = 0 \<or> frameLen > 10 * 1024 * 1024 then (FrameErr ErrUnexpectedEOF, p1)
           else (case ReadFull (unat frameLen) p1 of
                   (ReadBlocks, p2) \<Rightarrow> (FrameBlocks, p2)
                 | (ReadErr err, p2) \<Rightarrow> (FrameErr err, p2)
                 | (Got frameJSON, p2) \<Rightarrow>
                     (case json_Unmarshal_frame E frameJSON of
                        Inl err \<Rightarrow> (FrameErr err, p2)
                      | Inr frame \<Rightarrow> (Frame frame, p2)))))"

text \<open>The loop \<open>for { ... }\<close> of \<open>streamInternal\<close>.\<close>

function streamInternal_loop ::
  "env \<Rightarrow> Worker \<Rightarrow> ResponseWriter \<Rightarrow> bool \<Rightarrow> int
     \<Rightarrow> (error + unit) option \<times> Worker \<times> ResponseWriter" where
  "streamInternal_loop E w rw headersSent statusCode =
     (case streamInternal_read E (proc w) of
        (FrameBlocks, p') \<Rightarrow> (None, w\<lparr>proc := p'\<rparr>, rw)
      | (FrameErr err, p') \<Rightarrow> (Some (Inl err), markDead (w\<lparr>proc := p'\<rparr>), rw)
      | (Frame frame, p') \<Rightarrow>
          (case streamInternal_switch E frame rw headersSent statusCode of
             (Stop r, rw') \<Rightarrow> (Some r, w\<lparr>proc := p'\<rparr>, rw')
           | (Next headersSent' statusCode', rw') \<Rightarrow>
               streamInternal_loop E (w\<lparr>proc := p'\<rparr>) rw' headersSent' statusCode'))"
  by pat_completeness auto
termination
  by (relation "measure (\<lambda>(E, w, rw, headersSent, statusCode). length (stdout_data (proc w)))")
     (auto simp: streamInternal_read_def ReadFull_def Let_def
           split: if_splits stream_end.splits prod.splits read_result.splits sum.splits)

declare streamInternal_loop.simps [simp del]

text \<open>\<open>streamInternal\<close> between \<open>w.mu.Lock()\<close> and the deferred \<open>w.mu.Unlock()\<close>.\<close>

definition streamInternal_locked ::
  "env \<Rightarrow> Worker \<Rightarrow> RequestPayload \<Rightarrow> ResponseWriter
     \<Rightarrow> (error + unit) option \<times> Worker \<times> ResponseWriter" where
  "streamInternal_locked E w req rw =
     (case (if isDead w then restart w else (Some None, w)) of
        (None, w1) \<Rightarrow> (None, w1, rw)
      | (Some (Some err), w1) \<Rightarrow> (Some (Inl err), w1, rw)
      | (Some None, w1) \<Rightarrow>
          (case json_Marshal E req of
             Inl err \<Rightarrow> (Some (Inl err), w1, rw)
           | Inr jsonBytes \<Rightarrow>
               (let len = (word_of_nat (length jsonBytes) :: 32 word);
                    header = PutUint32 len
                in case Write header (proc w1) of
                     (Some err, p1) \<Rightarrow> (Some (Inl err), w1\<lparr>proc := p1\<rparr>, rw)
                   | (None, p1) \<Rightarrow>
                       (case Write jsonBytes p1 of
                          (Some err, p2) \<Rightarrow> (Some (Inl err), w1\<lparr>proc := p2\<rparr>, rw)
                        | (None, p2) \<Rightarrow>
                            streamInternal_loop E (w1\<lparr>proc := p2\<rparr>) rw False 200))))"

definition streamInternal ::
  "env \<Rightarrow> Worker \<Rightarrow> RequestPayload \<Rightarrow> ResponseWriter
     \<Rightarrow> (error + unit) option \<times> Worker \<times> ResponseWriter" where
  "streamInternal E w req rw =
     (if mu_locked w then (None, w, rw)
      else (case streamInternal_locked E (w\<lparr>mu_locked := True\<rparr>) req rw of
              (None, w', rw') \<Rightarrow> (None, w', rw')
            | (Some r, w', rw') \<Rightarrow> (Some r, w'\<lparr>mu_locked := False\<rparr>, rw')))"

text \<open>The deferred function of \<open>Stream\<close>.\<close>

definition Stream_deferred :: "Worker \<Rightarrow> Worker" where
  "Stream_deferred w =
     (let w1 = decrInFlight w in
      if getInFlight w1 = 0 \<and> isDraining w1 then markDead w1
      else if \<not> isDead w1 then setState WorkerIdle w1
      else w1)"

text \<open>
  \<open>Stream\<close>. \<open>streamInternal\<close> runs in a goroutine of its own; when it does not
  come back, the timeout, if one is configured, ends the call.
\<close>

definition Stream ::
  "env \<Rightarrow> Worker \<Rightarrow> RequestPayload \<Rightarrow> ResponseWriter
     \<Rightarrow> (error + unit) option \<times> Worker \<times> ResponseWriter" where
  "Stream E w req rw =
     (if isDead w \<or> isDraining w then (Some (Inl ErrWorkerDead), w, rw)
      else (case streamInternal E (setState WorkerBusy (incrInFlight w)) req rw of
              (Some r, w', rw') \<Rightarrow> (Some r, Stream_deferred w', rw')
            | (None, w', rw') \<Rightarrow>
                if requestTimeout w' > 0
                then (Some (Inl (ErrOther (''worker stream timeout after ''
                             @ Duration_String E (requestTimeout w')))),
                      Stream_deferred ((markDead w')\<lparr>proc := Kill (proc w')\<rparr>), rw')
                else (None, w', rw')))"

section \<open>Worker pool\<close>

text \<open>
  The pool holds pointers to workers, and a worker that leaves the list lives on: the
  workers are in a store, from addresses to workers, and the list holds addresses,
  \<open>None\<close> for the nil pointer. \<open>pool_next\<close> is the field \<open>next\<close>.
\<close>

type_synonym addr = nat

type_synonym store = "addr \<Rightarrow> Worker"

record WorkerPool =
  workers :: "addr option list"
  pool_next :: nat

text \<open>A call returns a value or ends in a run-time panic.\<close>

datatype 'a outcome = Panics | Returns 'a

text \<open>The test \<open>w != nil && !w.isDead() && !w.isDraining()\<close> of \<open>NextWorker\<close>.\<close>

definition usable :: "store \<Rightarrow> addr option \<Rightarrow> bool" where
  "usable H w = (case w of None \<Rightarrow> False | Some a \<Rightarrow> \<not> isDead (H a) \<and> \<not> isDraining (H a))"

function NextWorker_loop ::
  "store \<Rightarrow> WorkerPool \<Rightarrow> nat \<Rightarrow> nat \<Rightarrow> addr option outcome \<times> WorkerPool" where
  "NextWorker_loop H p n i =
     (if i < n
      then (if pool_next p < length (workers p)
            then (let w = workers p ! pool_next p;
                      p' = p\<lparr>pool_next := (pool_next p + 1) mod n\<rparr>
                  in if usable H w then (Returns w, p') else NextWorker_loop H p' n (i + 1))
            else (Panics, p))
      else (Returns None, p))"
  by pat_completeness auto
termination
  by (relation "measure (\<lambda>(H, p, n, i). n - i)") auto

declare NextWorker_loop.simps [simp del]

definition NextWorker :: "store \<Rightarrow> WorkerPool \<Rightarrow> addr option outcome \<times> WorkerPool" where
  "NextWorker H p =
     (let n = length (workers p) in
      if n = 0 then (Returns None, p) else NextWorker_loop H p n 0)"

definition Dispatch ::
  "env \<Rightarrow> store \<Rightarrow> WorkerPool \<Rightarrow> RequestPayload
     \<Rightarrow> (error + ResponsePayload) option outcome \<times> store \<times> WorkerPool" where
  "Dispatch E H p req =
     (case NextWorker H p of
        (Panics, p') \<Rightarrow> (Panics, H, p')
      | (Returns None, p') \<Rightarrow> (Returns (Some (Inl ErrNoWorkers)), H, p')
      | (Returns (Some a), p') \<Rightarrow>
          (case Handle E (H a) req of (r, w') \<Rightarrow> (Returns r, H(a := w'), p')))"

text \<open>The loop of \<open>ScaleTo\<close> that runs over the workers cut off, from index \<open>newSize\<close> on.\<close>

fun ScaleTo_drain :: "store \<Rightarrow> addr option list \<Rightarrow> store" where
  "ScaleTo_drain H [] = H"
| "ScaleTo_drain H (w # ws) =
     ScaleTo_drain (case w of None \<Rightarrow> H | Some a \<Rightarrow> H(a := startDraining (H a))) ws"

text \<open>
  The loop of \<open>ScaleTo\<close> that grows the pool, with the number of passes left. The
  factory is a closure: it has a state of its own, which a call may change.
\<close>

fun ScaleTo_grow ::
  "('f \<Rightarrow> (error + addr option) \<times> 'f) \<Rightarrow> nat \<Rightarrow> 'f \<Rightarrow> addr option list
     \<Rightarrow> error option \<times> 'f \<times> addr option list" where
  "ScaleTo_grow factory 0 f ws = (None, f, ws)"
| "ScaleTo_grow factory (Suc k) f ws =
     (case factory f of
        (Inl err, f') \<Rightarrow> (Some err, f', ws)
      | (Inr w, f') \<Rightarrow> ScaleTo_grow factory k f' (ws @ [w]))"

text \<open>
  \<open>ScaleTo\<close>. A negative \<open>newSize\<close> is below the current size, and the first pass of
  the loop over the workers cut off reads \<open>p.workers[newSize]\<close>: the index is out of range.
\<close>

definition ScaleTo ::
  "int \<Rightarrow> ('f \<Rightarrow> (error + addr option) \<times> 'f) \<Rightarrow> 'f \<Rightarrow> store \<Rightarrow> WorkerPool
     \<Rightarrow> error option outcome \<times> 'f \<times> store \<times> WorkerPool" where
  "ScaleTo newSize factory f H p =
     (let cur = int (length (workers p)) in
      if newSize = cur then (Returns None, f, H, p)
      else if newSize < cur then
        (if newSize < 0 then (Panics, f, H, p)
         else (Returns None, f, ScaleTo_drain H (drop (nat newSize) (workers p)),
               p\<lparr>workers := take (nat newSize) (workers p),
                 pool_next := (if int (pool_next p) \<ge> newSize then 0 else pool_next p)\<rparr>))
      else (case ScaleTo_grow factory (nat (newSize - cur)) f (workers p) of
              (r, f', ws') \<Rightarrow> (Returns r, f', H, p\<lparr>workers := ws'\<rparr>)))"

section \<open>Event hub\<close>

text \<open>
  The hub maps a channel name to the set of the clients subscribed to it; \<open>None\<close> is the
  nil set of a channel that has no entry. A client is a pointer; \<open>done_closed\<close> says of
  each client whether its \<open>done\<close> channel has been closed.
\<close>

record SSEHub =
  clients :: "string \<Rightarrow> addr set option"
  done_closed :: "addr \<Rightarrow> bool"

text \<open>\<open>Subscribe\<close>, with the address \<open>c\<close> of the client it allocates.\<close>

definition Subscribe :: "string \<Rightarrow> addr \<Rightarrow> SSEHub \<Rightarrow> SSEHub" where
  "Subscribe channel c h =
     h\<lparr>clients := (clients h)(channel \<mapsto>
                      insert c (case clients h channel of None \<Rightarrow> {} | Some subs \<Rightarrow> subs)),
       done_closed := (done_closed h)(c := False)\<rparr>"

text \<open>
  \<open>Unsubscribe\<close>. \<open>subs\<close> is the set stored in the hub, not a copy of it, so the deletion
  is seen in the hub at once; closing a channel that is closed is a run-time panic.
\<close>

definition Unsubscribe :: "string \<Rightarrow> addr \<Rightarrow> SSEHub \<Rightarrow> unit outcome \<times> SSEHub" where
  "Unsubscribe channel c h =
     (case clients h channel of
        None \<Rightarrow> (Returns (), h)
      | Some subs \<Rightarrow>
          (let subs' = subs - {c};
               h1 = h\<lparr>clients := (clients h)(channel \<mapsto> subs')\<rparr>
           in if done_closed h1 c then (Panics, h1)
              else (let h2 = h1\<lparr>done_closed := (done_closed h1)(c := True)\<rparr>
                    in (Returns (),
                        if subs' = {} then h2\<lparr>clients := (clients h2)(channel := None)\<rparr>
                        else h2))))"

section \<open>Calls in a row\<close>

text \<open>\<open>NextWorker\<close> called \<open>k\<close> times in a row: the values returned, and the pool left.\<close>

fun NextWorker_times ::
  "nat \<Rightarrow> store \<Rightarrow> WorkerPool \<Rightarrow> addr option outcome list \<times> WorkerPool" where
  "NextWorker_times 0 H p = ([], p)"
| "NextWorker_times (Suc k) H p =
     (case NextWorker H p of
        (r, p') \<Rightarrow> (case NextWorker_times k H p' of (rs, p'') \<Rightarrow> (r # rs, p'')))"

text \<open>The requests of a list dispatched one after the other: the results, in order.\<close>

fun Dispatch_all ::
  "env \<Rightarrow> store \<Rightarrow> WorkerPool \<Rightarrow> RequestPayload list
     \<Rightarrow> (error + ResponsePayload) option outcome list \<times> store \<times> WorkerPool" where
  "Dispatch_all E H p [] = ([], H, p)"
| "Dispatch_all E H p (req # reqs) =
     (case Dispatch E H p req of
        (r, H', p') \<Rightarrow>
          (case Dispatch_all E H' p' reqs of (rs, H'', p'') \<Rightarrow> (r # rs, H'', p'')))"



section \<open>Concrete processes, workers, pools and sinks\<close>

text \<open>A child that accepts every write and then stays silent.\<close>

definition silent_proc :: Proc where
  "silent_proc =
     \<lparr>stdin_log = [], stdin_calls = 0, stdin_res = (\<lambda>i. None), stdout_data = [],
      stdout_end = Silent, closed = False, killed = False\<rparr>"

text \<open>A child that accepts every write and answers with the bytes \<open>bs\<close>, then exits.\<close>

definition answering_proc :: "byte list \<Rightarrow> Proc" where
  "answering_proc bs = silent_proc\<lparr>stdout_data := bs, stdout_end := AtEOF\<rparr>"

text \<open>A new worker whose child processes, the first and every later one, are \<open>p\<close>.\<close>

definition worker_of :: "Proc \<Rightarrow> int \<Rightarrow> int \<Rightarrow> Worker" where
  "worker_of p maxReq timeout =
     \<lparr>proc = p, mu_locked = False, dead = False, maxRequests = maxReq,
      requestTimeout = timeout, requestCount = 0, state = WorkerIdle, inFlight = 0,
      spawn = (\<lambda>i. Inr p), spawned = 1\<rparr>"

text \<open>
  The pool of the round-robin test: three workers at the addresses 0, 1 and 2, the
  first marked dead, the second draining.
\<close>

definition skip_store :: store where
  "skip_store =
     (\<lambda>a. worker_of silent_proc 0 0)
       (0 := markDead (worker_of silent_proc 0 0),
        1 := startDraining (worker_of silent_proc 0 0))"

definition skip_pool :: WorkerPool where
  "skip_pool = \<lparr>workers = [Some 0, Some 1, Some 2], pool_next = 0\<rparr>"

text \<open>
  A stand-in for the JSON codec: a request is sent as the bytes of its body, a response
  is the same for every payload but the byte 255, which does not decode, and a stream
  frame is one byte, which selects
  one of the frames of the streaming scenario (headers with two cookies and a
  two-valued tag, a chunk, the end) or a second headers frame.
\<close>

definition demo_headers :: StreamFrame where
  "demo_headers =
     \<lparr>frame_Type = ''headers'', frame_Status = 201,
      frame_Headers = Some [(''Set-Cookie'', [''a=1'', ''b=2'']), (''X-Tag'', [''x'', ''y''])],
      frame_Data = ''hi'', frame_Error = []\<rparr>"

definition demo_chunk :: StreamFrame where
  "demo_chunk =
     \<lparr>frame_Type = ''chunk'', frame_Status = 0, frame_Headers = None,
      frame_Data = '' world'', frame_Error = []\<rparr>"

definition demo_end :: StreamFrame where
  "demo_end =
     \<lparr>frame_Type = ''end'', frame_Status = 0, frame_Headers = None,
      frame_Data = [], frame_Error = []\<rparr>"

definition demo_headers_again :: StreamFrame where
  "demo_headers_again =
     \<lparr>frame_Type = ''headers'', frame_Status = 0, frame_Headers = Some [(''X-Late'', [''z''])],
      frame_Data = [], frame_Error = []\<rparr>"

definition demo_env :: env where
  "demo_env =
     \<lparr>json_Marshal = (\<lambda>r. Inr (map of_char (req_Body r))),
      json_Unmarshal_response =
        (\<lambda>bs. if bs = [255] then Inl (ErrOther ''invalid character'')
              else Inr \<lparr>resp_Status = 200, resp_Headers = [], resp_Body = ''pong''\<rparr>),
      json_Unmarshal_frame =
        (\<lambda>bs. if bs = [1] then Inr demo_headers
              else if bs = [2] then Inr demo_chunk
              else if bs = [3] then Inr demo_end
              else if bs = [4] then Inr demo_headers_again
              else Inl (ErrOther ''invalid character'')),
      Duration_String = (\<lambda>d. ''100ms''),
      strconv_Quote = (\<lambda>s. [CHR 0x22] @ s @ [CHR 0x22])\<rparr>"

definition demo_req :: RequestPayload where
  "demo_req =
     \<lparr>req_ID = ''1'', req_Method = ''GET'', req_Path = ''/'', req_Headers = [],
      req_Body = ''ping''\<rparr>"

text \<open>A sink that has seen no call, accepts every write and can flush.\<close>

definition new_rw :: ResponseWriter where
  "new_rw = \<lparr>calls = [], write_calls = 0, write_res = (\<lambda>i. None), is_Flusher = True\<rparr>"

text \<open>The response that the stand-in codec decodes.\<close>

definition pong :: ResponsePayload where
  "pong = \<lparr>resp_Status = 200, resp_Headers = [], resp_Body = ''pong''\<rparr>"

section \<open>The factory of \<open>ScaleTo\<close>, as the specification describes its use\<close>

text \<open>
  The results of \<open>k\<close> calls of the factory in a row, and the state of the factory
  after \<open>k\<close> calls.
\<close>

fun factory_calls ::
  "('f \<Rightarrow> (error + addr option) \<times> 'f) \<Rightarrow> nat \<Rightarrow> 'f \<Rightarrow> (error + addr option) list" where
  "factory_calls factory 0 f = []"
| "factory_calls factory (Suc k) f =
     (case factory f of (r, f') \<Rightarrow> r # factory_calls factory k f')"

fun factory_state :: "('f \<Rightarrow> (error + addr option) \<times> 'f) \<Rightarrow> nat \<Rightarrow> 'f \<Rightarrow> 'f" where
  "factory_state factory 0 f = f"
| "factory_state factory (Suc k) f = factory_state factory k (snd (factory f))"

text \<open>
  Of a list of results: the workers made before the first failure, the first failure,
  and the number of calls up to and including the first failure.
\<close>

fun made :: "(error + addr option) list \<Rightarrow> addr option list" where
  "made [] = []"
| "made (Inl err # rs) = []"
| "made (Inr w # rs) = w # made rs"

fun first_failure :: "(error + addr option) list \<Rightarrow> error option" where
  "first_failure [] = None"
| "first_failure (Inl err # rs) = Some err"
| "first_failure (Inr w # rs) = first_failure rs"

fun calls_made :: "(error + addr option) list \<Rightarrow> nat" where
  "calls_made [] = 0"
| "calls_made (Inl err # rs) = 1"
| "calls_made (Inr w # rs) = Suc (calls_made rs)"

text \<open>
  The factory of the pool tests: it counts its calls and returns a new worker each
  time, at the addresses from 10 on; \<open>failing_factory\<close> fails at its third call.
\<close>

definition counting_factory :: "nat \<Rightarrow> (error + addr option) \<times> nat" where
  "counting_factory created = (Inr (Some (10 + created)), created + 1)"

definition failing_factory :: "nat \<Rightarrow> (error + addr option) \<times> nat" where
  "failing_factory created =
     (if created = 2 then (Inl (ErrOther ''exec: php: executable file not found''), created + 1)
      else (Inr (Some (10 + created)), created + 1))"

section \<open>The relay of headers, as the specification describes it\<close>



section \<open>Round-robin selection\<close>

lemma mod_step_shift:
  "(Suc a mod n + j + 1) mod n = (a + Suc j + 1) mod (n::nat)"
proof -
  have "(Suc a mod n + Suc j) mod n = (Suc a + Suc j) mod n"
    by (rule mod_add_left_eq)
  then show ?thesis by simp
qed

lemma mod_step_shift0:
  "(Suc a mod n + j) mod n = (a + Suc j) mod (n::nat)"
proof -
  have "(Suc a mod n + j) mod n = (Suc a + j) mod n"
    by (rule mod_add_left_eq)
  then show ?thesis by simp
qed

lemma NextWorker_loop_found:
  assumes "n = length (workers p)" "pool_next p < n" "i + j0 < n"
    and "\<And>j. j < j0 \<Longrightarrow> \<not> usable H (workers p ! ((pool_next p + j) mod n))"
    and "usable H (workers p ! ((pool_next p + j0) mod n))"
  shows "NextWorker_loop H p n i =
           (Returns (workers p ! ((pool_next p + j0) mod n)),
            p\<lparr>pool_next := (pool_next p + j0 + 1) mod n\<rparr>)"
  using assms
proof (induction j0 arbitrary: p i)
  case 0
  then show ?case
    by (subst NextWorker_loop.simps) (simp add: Let_def)
next
  case (Suc j0)
  let ?p' = "p\<lparr>pool_next := (pool_next p + 1) mod n\<rparr>"
  have nu: "\<not> usable H (workers p ! pool_next p)"
    using Suc.prems(4) [of 0] Suc.prems(2) by simp
  have step: "NextWorker_loop H p n i = NextWorker_loop H ?p' n (i + 1)"
    using Suc.prems(1,2,3) nu by (subst NextWorker_loop.simps) (simp add: Let_def)
  have idx: "(pool_next ?p' + j) mod n = (pool_next p + Suc j) mod n" for j
    using mod_step_shift0 [of "pool_next p" n j] by simp
  have idx2: "(pool_next ?p' + j0 + 1) mod n = (pool_next p + Suc j0 + 1) mod n"
    using mod_step_shift [of "pool_next p" n j0] by simp
  have "NextWorker_loop H ?p' n (i + 1) =
          (Returns (workers ?p' ! ((pool_next ?p' + j0) mod n)),
           ?p'\<lparr>pool_next := (pool_next ?p' + j0 + 1) mod n\<rparr>)"
  proof (rule Suc.IH)
    show "n = length (workers ?p')" using Suc.prems(1) by simp
    show "pool_next ?p' < n" using Suc.prems(2) by simp
    show "i + 1 + j0 < n" using Suc.prems(3) by simp
    show "\<not> usable H (workers ?p' ! ((pool_next ?p' + j) mod n))" if "j < j0" for j
      unfolding idx using Suc.prems(4) [of "Suc j"] that by simp
    show "usable H (workers ?p' ! ((pool_next ?p' + j0) mod n))"
      unfolding idx using Suc.prems(5) by simp
  qed
  then have "NextWorker_loop H ?p' n (i + 1) =
          (Returns (workers p ! ((pool_next p + Suc j0) mod n)),
           p\<lparr>pool_next := (pool_next p + Suc j0 + 1) mod n\<rparr>)"
    unfolding idx idx2 by simp
  with step show ?case by simp
qed

lemma NextWorker_loop_none:
  assumes "n = length (workers p)" "pool_next p < n" "i + k = n"
    and "\<And>j. j < k \<Longrightarrow> \<not> usable H (workers p ! ((pool_next p + j) mod n))"
  shows "NextWorker_loop H p n i = (Returns None, p\<lparr>pool_next := (pool_next p + k) mod n\<rparr>)"
  using assms
proof (induction k arbitrary: p i)
  case 0
  then show ?case
    by (subst NextWorker_loop.simps) simp
next
  case (Suc k)
  let ?p' = "p\<lparr>pool_next := (pool_next p + 1) mod n\<rparr>"
  have nu: "\<not> usable H (workers p ! pool_next p)"
    using Suc.prems(4) [of 0] Suc.prems(2) by simp
  have step: "NextWorker_loop H p n i = NextWorker_loop H ?p' n (i + 1)"
    using Suc.prems(1,2,3) nu by (subst NextWorker_loop.simps) (simp add: Let_def)
  have idx: "(pool_next ?p' + j) mod n = (pool_next p + Suc j) mod n" for j
    using mod_step_shift0 [of "pool_next p" n j] by simp
  have "NextWorker_loop H ?p' n (i + 1) =
          (Returns None, ?p'\<lparr>pool_next := (pool_next ?p' + k) mod n\<rparr>)"
  proof (rule Suc.IH)
    show "n = length (workers ?p')" using Suc.prems(1) by simp
    show "pool_next ?p' < n" using Suc.prems(2) by simp
    show "i + 1 + k = n" using Suc.prems(3) by simp
    show "\<not> usable H (workers ?p' ! ((pool_next ?p' + j) mod n))" if "j < k" for j
      unfolding idx using Suc.prems(4) [of "Suc j"] that by simp
  qed
  then have "NextWorker_loop H ?p' n (i + 1) =
          (Returns None, p\<lparr>pool_next := (pool_next p + Suc k) mod n\<rparr>)"
    unfolding idx by simp
  with step show ?case by simp
qed

lemma NextWorker_none_usable:
  assumes "\<forall>w \<in> set (workers p). \<not> usable H w"
    and "workers p = [] \<or> pool_next p < length (workers p)"
  shows "NextWorker H p = (Returns None, p)"
proof (cases "workers p = []")
  case True
  then show ?thesis by (simp add: NextWorker_def)
next
  case False
  then have nx: "pool_next p < length (workers p)" using assms(2) by simp
  have "NextWorker_loop H p (length (workers p)) 0 =
          (Returns None, p\<lparr>pool_next := (pool_next p + length (workers p)) mod length (workers p)\<rparr>)"
  proof (rule NextWorker_loop_none)
    show "\<not> usable H (workers p ! ((pool_next p + j) mod length (workers p)))"
      if "j < length (workers p)" for j
    proof -
      have "0 < length (workers p)"
        using nx by linarith
      then have "(pool_next p + j) mod length (workers p) < length (workers p)"
        by (rule mod_less_divisor)
      then have "workers p ! ((pool_next p + j) mod length (workers p)) \<in> set (workers p)"
        by (rule nth_mem)
      with assms(1) show ?thesis by blast
    qed
  qed (use nx in simp_all)
  then show ?thesis
    using False nx by (simp add: NextWorker_def)
qed

text \<open>
  Claim C3. \<open>NextWorker\<close> looks at the workers in the order of the list, starting
  at the cursor and wrapping around, at most once each. When the cursor is a valid index
  and the candidate number \<open>j0\<close> is the first one that is not nil, not dead and not
  draining, that worker is returned and the cursor is left one past it. When no worker of
  the list qualifies (or the list is empty), \<open>NextWorker\<close> returns nil with the cursor
  where it was, and \<open>Dispatch\<close> returns \<open>ErrNoWorkers\<close> without touching a worker. In
  the pool of three workers, the first dead and the second draining, four calls in a row
  all return the third.
\<close>

theorem NextWorker_round_robin:
  "(pool_next p < length (workers p) \<longrightarrow>
      (\<forall>j0 < length (workers p).
         (\<forall>j < j0. \<not> usable H (workers p ! ((pool_next p + j) mod length (workers p)))) \<and>
         usable H (workers p ! ((pool_next p + j0) mod length (workers p))) \<longrightarrow>
         NextWorker H p =
           (Returns (workers p ! ((pool_next p + j0) mod length (workers p))),
            p\<lparr>pool_next := (pool_next p + j0 + 1) mod length (workers p)\<rparr>)))
   \<and> ((workers p = [] \<or> pool_next p < length (workers p)) \<and>
        (\<forall>w \<in> set (workers p). \<not> usable H w) \<longrightarrow>
      NextWorker H p = (Returns None, p) \<and>
      Dispatch E H p req = (Returns (Some (Inl ErrNoWorkers)), H, p))
   \<and> NextWorker_times 4 skip_store skip_pool =
        ([Returns (Some 2), Returns (Some 2), Returns (Some 2), Returns (Some 2)], skip_pool)"
proof (intro conjI impI allI)
  fix j0
  assume nx: "pool_next p < length (workers p)" and j0: "j0 < length (workers p)"
    and u: "(\<forall>j < j0. \<not> usable H (workers p ! ((pool_next p + j) mod length (workers p)))) \<and>
         usable H (workers p ! ((pool_next p + j0) mod length (workers p)))"
  have "NextWorker_loop H p (length (workers p)) 0 =
          (Returns (workers p ! ((pool_next p + j0) mod length (workers p))),
           p\<lparr>pool_next := (pool_next p + j0 + 1) mod length (workers p)\<rparr>)"
    by (rule NextWorker_loop_found) (use nx j0 u in simp_all)
  then show "NextWorker H p =
           (Returns (workers p ! ((pool_next p + j0) mod length (workers p))),
            p\<lparr>pool_next := (pool_next p + j0 + 1) mod length (workers p)\<rparr>)"
    using nx by (auto simp add: NextWorker_def)
next
  assume a: "(workers p = [] \<or> pool_next p < length (workers p)) \<and>
        (\<forall>w \<in> set (workers p). \<not> usable H w)"
  then show n: "NextWorker H p = (Returns None, p)"
    by (simp add: NextWorker_none_usable)
  then show "Dispatch E H p req = (Returns (Some (Inl ErrNoWorkers)), H, p)"
    by (simp add: Dispatch_def)
next
  have one: "NextWorker skip_store skip_pool = (Returns (Some 2), skip_pool)"
    by (simp add: NextWorker_def NextWorker_loop.simps skip_pool_def skip_store_def usable_def
        isDead_def isDraining_def markDead_def startDraining_def worker_of_def Let_def)
  show "NextWorker_times 4 skip_store skip_pool =
        ([Returns (Some 2), Returns (Some 2), Returns (Some 2), Returns (Some 2)], skip_pool)"
    by (simp add: numeral_eq_Suc one)
qed

text \<open>
  The theorem at work: with the cursor at the last place of a list that holds the
  draining worker, the healthy one and the dead one, the search wraps around and finds
  the healthy worker as its third candidate; a list with no usable worker gives
  \<open>ErrNoWorkers\<close>.
\<close>

theorem NextWorker_round_robin_witness:
  "NextWorker skip_store \<lparr>workers = [Some 1, Some 2, Some 0], pool_next = 2\<rparr> =
     (Returns (Some 2), \<lparr>workers = [Some 1, Some 2, Some 0], pool_next = 2\<rparr>)
   \<and> Dispatch demo_env skip_store \<lparr>workers = [Some 0, None, Some 1], pool_next = 1\<rparr> demo_req =
     (Returns (Some (Inl ErrNoWorkers)), skip_store,
      \<lparr>workers = [Some 0, None, Some 1], pool_next = 1\<rparr>)"
proof -
  let ?p = "\<lparr>workers = [Some 1, Some 2, Some 0], pool_next = 2\<rparr>"
  let ?q = "\<lparr>workers = [Some 0, None, Some 1], pool_next = 1\<rparr>"
  have u: "\<not> usable skip_store (Some 0)" "\<not> usable skip_store (Some 1)" "usable skip_store (Some 2)"
    "\<not> usable skip_store None"
    by (simp_all add: skip_store_def usable_def isDead_def isDraining_def markDead_def
        startDraining_def worker_of_def)
  have lt2: "j < 2 \<longleftrightarrow> j = 0 \<or> j = Suc 0" for j :: nat by auto
  have a: "NextWorker skip_store ?p = (Returns (Some 2), ?p)"
    using NextWorker_round_robin [of ?p skip_store demo_env demo_req, THEN conjunct1, rule_format, of 2] u
    by (simp add: lt2)
  have b: "Dispatch demo_env skip_store ?q demo_req = (Returns (Some (Inl ErrNoWorkers)), skip_store, ?q)"
    using NextWorker_round_robin [of ?q skip_store demo_env demo_req, THEN conjunct2, THEN conjunct1] u
    by simp
  from a b show ?thesis by simp
qed

section \<open>Resizing the pool\<close>

lemma startDraining_idem: "startDraining (startDraining w) = startDraining w"
  by (simp add: startDraining_def)

lemma ScaleTo_drain_at:
  "ScaleTo_drain H ws a = (if Some a \<in> set ws then startDraining (H a) else H a)"
  by (induction ws arbitrary: H) (auto simp: startDraining_idem split: option.splits)

lemma ScaleTo_grow_calls:
  "ScaleTo_grow factory k f ws =
     (first_failure (factory_calls factory k f),
      factory_state factory (calls_made (factory_calls factory k f)) f,
      ws @ made (factory_calls factory k f))"
proof (induction k arbitrary: f ws)
  case 0
  then show ?case by simp
next
  case (Suc k)
  obtain r f' where ff: "factory f = (r, f')" by (cases "factory f")
  show ?case
  proof (cases r)
    case (Inl err)
    with ff show ?thesis by simp
  next
    case (Inr w)
    with ff Suc.IH [of f' "ws @ [w]"] show ?thesis by simp
  qed
qed

lemma made_all:
  "first_failure rs = None \<Longrightarrow> length (made rs) = length rs \<and> calls_made rs = length rs"
  by (induction rs rule: made.induct) auto

lemma made_some:
  "first_failure rs = Some err \<Longrightarrow> length (made rs) < length rs \<and> calls_made rs = Suc (length (made rs))"
  by (induction rs rule: made.induct) auto

lemma length_factory_calls: "length (factory_calls factory k f) = k"
  by (induction k arbitrary: f) (auto split: prod.splits)

text \<open>
  Claim C9, as amended. \<open>ScaleTo\<close> with the current size changes nothing. With a
  size from 0 up to the current one it calls \<open>startDraining\<close> on exactly the workers
  at the indices cut off, which sets the state \<open>Draining\<close> on each of them that is not
  in the state \<open>Dead\<close> and leaves one that is \<open>Dead\<close> as it is; it cuts the list to
  the new length, sets the cursor to 0 when it is not below the new length and leaves it
  otherwise, and does not call the factory. With a larger size it calls the factory
  until the list has the new length or a call fails: every worker made is appended, in
  order; with no failure the factory has been called once for each missing worker, and
  a failure is returned at once, the workers made before it staying in the pool.
\<close>

theorem ScaleTo_amended:
  "(newSize = int (length (workers p)) \<longrightarrow>
      ScaleTo newSize factory f H p = (Returns None, f, H, p))
   \<and> (0 \<le> newSize \<and> newSize < int (length (workers p)) \<longrightarrow>
      ScaleTo newSize factory f H p =
        (Returns None, f,
         (\<lambda>a. if Some a \<in> set (drop (nat newSize) (workers p)) then startDraining (H a) else H a),
         p\<lparr>workers := take (nat newSize) (workers p),
           pool_next := (if newSize \<le> int (pool_next p) then 0 else pool_next p)\<rparr>)
      \<and> startDraining w =
          (if state w = WorkerDead then w else w\<lparr>state := WorkerDraining\<rparr>))
   \<and> (int (length (workers p)) < newSize \<longrightarrow>
      (let rs = factory_calls factory (nat (newSize - int (length (workers p)))) f in
       ScaleTo newSize factory f H p =
         (Returns (first_failure rs), factory_state factory (calls_made rs) f, H,
          p\<lparr>workers := workers p @ made rs\<rparr>)
       \<and> (case first_failure rs of
            None \<Rightarrow> calls_made rs = nat (newSize - int (length (workers p)))
                    \<and> int (length (workers p @ made rs)) = newSize
          | Some err \<Rightarrow> calls_made rs = Suc (length (made rs))
                    \<and> int (length (workers p @ made rs)) < newSize)))"
proof (intro conjI impI)
  assume "newSize = int (length (workers p))"
  then show "ScaleTo newSize factory f H p = (Returns None, f, H, p)"
    by (simp add: ScaleTo_def)
next
  assume a: "0 \<le> newSize \<and> newSize < int (length (workers p))"
  have "ScaleTo_drain H (drop (nat newSize) (workers p)) =
          (\<lambda>a. if Some a \<in> set (drop (nat newSize) (workers p)) then startDraining (H a) else H a)"
    by (rule ext) (rule ScaleTo_drain_at)
  with a show "ScaleTo newSize factory f H p =
        (Returns None, f,
         (\<lambda>a. if Some a \<in> set (drop (nat newSize) (workers p)) then startDraining (H a) else H a),
         p\<lparr>workers := take (nat newSize) (workers p),
           pool_next := (if newSize \<le> int (pool_next p) then 0 else pool_next p)\<rparr>)"
    by (simp add: ScaleTo_def Let_def)
next
  show "startDraining w = (if state w = WorkerDead then w else w\<lparr>state := WorkerDraining\<rparr>)"
    by (simp add: startDraining_def)
next
  assume a: "int (length (workers p)) < newSize"
  define k where "k = nat (newSize - int (length (workers p)))"
  define rs where "rs = factory_calls factory k f"
  have len: "length rs = k" by (simp add: rs_def length_factory_calls)
  have k: "int (length (workers p)) + int k = newSize" using a by (simp add: k_def)
  have eq: "ScaleTo newSize factory f H p =
         (Returns (first_failure rs), factory_state factory (calls_made rs) f, H,
          p\<lparr>workers := workers p @ made rs\<rparr>)"
    using a by (simp add: ScaleTo_def Let_def ScaleTo_grow_calls rs_def k_def)
  have cnt: "(case first_failure rs of
            None \<Rightarrow> calls_made rs = k \<and> int (length (workers p @ made rs)) = newSize
          | Some err \<Rightarrow> calls_made rs = Suc (length (made rs))
                    \<and> int (length (workers p @ made rs)) < newSize)"
  proof (cases "first_failure rs")
    case None
    with made_all [of rs] len k show ?thesis by simp
  next
    case (Some err)
    with made_some [of rs err] len k show ?thesis by simp
  qed
  from eq cnt show "let rs = factory_calls factory (nat (newSize - int (length (workers p)))) f in
       ScaleTo newSize factory f H p =
         (Returns (first_failure rs), factory_state factory (calls_made rs) f, H,
          p\<lparr>workers := workers p @ made rs\<rparr>)
       \<and> (case first_failure rs of
            None \<Rightarrow> calls_made rs = nat (newSize - int (length (workers p)))
                    \<and> int (length (workers p @ made rs)) = newSize
          | Some err \<Rightarrow> calls_made rs = Suc (length (made rs))
                    \<and> int (length (workers p @ made rs)) < newSize)"
    unfolding Let_def rs_def k_def by (rule conjI)
qed

text \<open>
  Claim C9 as stated fails where a worker cut off is dead: of two workers, the second
  one dead, \<open>ScaleTo\<close> to one worker leaves the second in the state \<open>Dead\<close>.
\<close>

theorem ScaleTo_dead_not_draining:
  "fst (ScaleTo 1 counting_factory 0 skip_store \<lparr>workers = [Some 2, Some 0], pool_next = 0\<rparr>)
     = Returns None
   \<and> state (fst (snd (snd (ScaleTo 1 counting_factory 0 skip_store
                \<lparr>workers = [Some 2, Some 0], pool_next = 0\<rparr>))) 0) \<noteq> WorkerDraining"
  by (simp add: ScaleTo_def skip_store_def markDead_def startDraining_def worker_of_def)

text \<open>
  The amended claim at work: the same size; three new workers cut to one, with the
  cursor out of range after the cut; one worker grown to three by the counting factory;
  and a factory that fails at the second of three calls.
\<close>

theorem ScaleTo_amended_witness:
  "ScaleTo 3 counting_factory 0 skip_store skip_pool = (Returns None, 0, skip_store, skip_pool)
   \<and> fst (ScaleTo 1 counting_factory 0 (\<lambda>a. worker_of silent_proc 0 0)
            \<lparr>workers = [Some 0, Some 1, Some 2], pool_next = 2\<rparr>) = Returns None
   \<and> snd (snd (snd (ScaleTo 1 counting_factory 0 (\<lambda>a. worker_of silent_proc 0 0)
            \<lparr>workers = [Some 0, Some 1, Some 2], pool_next = 2\<rparr>)))
       = \<lparr>workers = [Some 0], pool_next = 0\<rparr>
   \<and> map (\<lambda>a. state (fst (snd (snd (ScaleTo 1 counting_factory 0 (\<lambda>a. worker_of silent_proc 0 0)
            \<lparr>workers = [Some 0, Some 1, Some 2], pool_next = 2\<rparr>))) a)) [0, 1, 2]
       = [WorkerIdle, WorkerDraining, WorkerDraining]
   \<and> ScaleTo 3 counting_factory 0 skip_store \<lparr>workers = [Some 0], pool_next = 0\<rparr>
       = (Returns None, 2, skip_store, \<lparr>workers = [Some 0, Some 10, Some 11], pool_next = 0\<rparr>)
   \<and> ScaleTo 4 failing_factory 1 skip_store \<lparr>workers = [Some 0], pool_next = 0\<rparr>
       = (Returns (Some (ErrOther ''exec: php: executable file not found'')), 3, skip_store,
          \<lparr>workers = [Some 0, Some 11], pool_next = 0\<rparr>)"
proof -
  let ?H = "\<lambda>a::addr. worker_of silent_proc 0 0"
  let ?p3 = "\<lparr>workers = [Some 0, Some 1, Some 2], pool_next = 2\<rparr>"
  let ?p1 = "\<lparr>workers = [Some 0], pool_next = 0\<rparr>"
  have same: "ScaleTo 3 counting_factory 0 skip_store skip_pool = (Returns None, 0, skip_store, skip_pool)"
    using ScaleTo_amended [of 3 skip_pool counting_factory 0 skip_store, THEN conjunct1]
    by (simp add: skip_pool_def)
  have shrink: "ScaleTo 1 counting_factory 0 ?H ?p3 =
      (Returns None, 0,
       (\<lambda>a. if Some a \<in> set (drop (nat 1) (workers ?p3)) then startDraining (?H a) else ?H a),
       ?p3\<lparr>workers := take (nat 1) (workers ?p3),
           pool_next := (if 1 \<le> int (pool_next ?p3) then 0 else pool_next ?p3)\<rparr>)"
    using ScaleTo_amended [of 1 ?p3 counting_factory 0 ?H, THEN conjunct2, THEN conjunct1]
    by simp
  have grow: "ScaleTo 3 counting_factory 0 skip_store ?p1 =
      (Returns None, 2, skip_store, \<lparr>workers = [Some 0, Some 10, Some 11], pool_next = 0\<rparr>)"
    using ScaleTo_amended [of 3 ?p1 counting_factory 0 skip_store, THEN conjunct2, THEN conjunct2]
    by (simp add: Let_def numeral_2_eq_2 counting_factory_def)
  have fails: "ScaleTo 4 failing_factory 1 skip_store ?p1 =
      (Returns (Some (ErrOther ''exec: php: executable file not found'')), 3, skip_store,
       \<lparr>workers = [Some 0, Some 11], pool_next = 0\<rparr>)"
    using ScaleTo_amended [of 4 ?p1 failing_factory 1 skip_store, THEN conjunct2, THEN conjunct2]
    by (simp add: Let_def numeral_3_eq_3 failing_factory_def)
  show ?thesis
    unfolding same shrink grow fails
    by (simp add: startDraining_def worker_of_def)
qed

section \<open>Unsubscribing from the hub\<close>

text \<open>
  Claim C10. When the channel has a set of subscribers, \<open>Unsubscribe\<close> closes the
  \<open>done\<close> channel of the client it is given, whether or not the client is in the set:
  an open one is closed and the call returns, with the client out of the set and the
  entry of the channel deleted when the set has become empty; a closed one is closed
  again, which is a panic. So a second \<open>Unsubscribe\<close> of the same client, while
  another subscriber keeps the entry of the channel in place, panics. When the channel
  has no set, the call returns and nothing has changed.
\<close>

theorem Unsubscribe_closes_done:
  "(clients h channel = Some subs \<and> \<not> done_closed h c \<longrightarrow>
      fst (Unsubscribe channel c h) = Returns () \<and>
      done_closed (snd (Unsubscribe channel c h)) c \<and>
      clients (snd (Unsubscribe channel c h)) channel =
        (if subs - {c} = {} then None else Some (subs - {c})))
   \<and> (clients h channel = Some subs \<and> \<not> done_closed h c \<and> subs - {c} \<noteq> {} \<longrightarrow>
      fst (Unsubscribe channel c (snd (Unsubscribe channel c h))) = Panics)
   \<and> (clients h channel = Some subs \<and> done_closed h c \<longrightarrow>
      fst (Unsubscribe channel c h) = Panics)
   \<and> (clients h channel = None \<longrightarrow> Unsubscribe channel c h = (Returns (), h))"
  by (auto simp: Unsubscribe_def Let_def)

text \<open>
  The theorem at work, on a hub with two subscribers on one channel: a client that never
  subscribed has its \<open>done\<close> channel closed, a client unsubscribed twice makes the
  second call panic, and on a channel without subscribers nothing happens.
\<close>

theorem Unsubscribe_closes_done_witness:
  "done_closed (snd (Unsubscribe ''news'' 7
      (Subscribe ''news'' 2 (Subscribe ''news'' 1 \<lparr>clients = (\<lambda>ch. None), done_closed = (\<lambda>c. False)\<rparr>)))) 7
   \<and> fst (Unsubscribe ''news'' 1 (snd (Unsubscribe ''news'' 1
      (Subscribe ''news'' 2 (Subscribe ''news'' 1 \<lparr>clients = (\<lambda>ch. None), done_closed = (\<lambda>c. False)\<rparr>)))))
       = Panics
   \<and> Unsubscribe ''other'' 1
      (Subscribe ''news'' 2 (Subscribe ''news'' 1 \<lparr>clients = (\<lambda>ch. None), done_closed = (\<lambda>c. False)\<rparr>))
       = (Returns (),
      Subscribe ''news'' 2 (Subscribe ''news'' 1 \<lparr>clients = (\<lambda>ch. None), done_closed = (\<lambda>c. False)\<rparr>))"
proof -
  let ?h = "Subscribe ''news'' 2 (Subscribe ''news'' 1 \<lparr>clients = (\<lambda>ch. None), done_closed = (\<lambda>c. False)\<rparr>)"
  have cl: "clients ?h ''news'' = Some {1, 2}" "clients ?h ''other'' = None"
    "\<not> done_closed ?h 7" "\<not> done_closed ?h 1"
    by (auto simp: Subscribe_def)
  have a: "done_closed (snd (Unsubscribe ''news'' 7 ?h)) 7"
    using Unsubscribe_closes_done [of ?h "''news''" "{1, 2}" 7, THEN conjunct1] cl by simp
  have b: "fst (Unsubscribe ''news'' 1 (snd (Unsubscribe ''news'' 1 ?h))) = Panics"
    using Unsubscribe_closes_done [of ?h "''news''" "{1, 2}" 1, THEN conjunct2, THEN conjunct1] cl
    by simp
  have c: "Unsubscribe ''other'' 1 ?h = (Returns (), ?h)"
    using Unsubscribe_closes_done [of ?h "''other''" "{}" 1, THEN conjunct2, THEN conjunct2, THEN conjunct2] cl
    by simp
  from a b c show ?thesis by simp
qed

section \<open>Admission\<close>

lemmas worker_eval =
  Handle_def Handle_loop.simps Handle_attempt_def Handle_deferred_def handleRequest_def
  handleRequest_locked_def handleRequest_read_def Write_def ReadFull_def PutUint32_def Uint32_def
  restart_def Kill_def Close_def isBrokenPipe_def HasPrefix_def
  isDead_def isDraining_def markDead_def setState_def incrInFlight_def decrInFlight_def
  getInFlight_def startDraining_def Let_def
  answering_proc_def silent_proc_def worker_of_def demo_env_def demo_req_def pong_def

lemma Handle_fails_fast:
  "dead w \<Longrightarrow> Handle E w req = (Some (Inl ErrWorkerDead), w)"
  "\<not> dead w \<Longrightarrow> state w = WorkerDraining \<Longrightarrow> Handle E w req = (Some (Inl ErrWorkerDraining), w)"
  by (simp_all add: Handle_def isDead_def isDraining_def)

lemma Stream_fails_fast:
  "dead w \<or> state w = WorkerDraining \<Longrightarrow> Stream E w req rw = (Some (Inl ErrWorkerDead), w, rw)"
  by (auto simp add: Stream_def isDead_def isDraining_def)

text \<open>
  Claim C1 holds for \<open>Handle\<close> and for a dead worker; for a draining worker,
  \<open>Stream\<close> fails fast as well, the worker and the sink untouched, but the error it
  returns is \<open>ErrWorkerDead\<close>, where \<open>Handle\<close> returns \<open>ErrWorkerDraining\<close>.
\<close>

theorem Stream_draining_returns_ErrWorkerDead:
  "Stream demo_env (startDraining (worker_of silent_proc 0 0)) demo_req new_rw =
     (Some (Inl ErrWorkerDead), startDraining (worker_of silent_proc 0 0), new_rw)
   \<and> Handle demo_env (startDraining (worker_of silent_proc 0 0)) demo_req =
     (Some (Inl ErrWorkerDraining), startDraining (worker_of silent_proc 0 0))"
  by (simp add: Stream_def Handle_def isDead_def isDraining_def startDraining_def worker_of_def)

text \<open>
  Claim C2 fails on the code: a worker whose dead flag is set is refused by \<open>Handle\<close>
  and by \<open>Stream\<close> with \<open>ErrWorkerDead\<close>, and nothing is restarted (the worker is
  returned as it was). In a pool of one worker with \<open>maxRequests = 2\<close>, whose child
  answers every request, the first two requests are served, which marks the worker dead,
  and the third finds no worker.
\<close>

theorem dead_worker_is_refused:
  "Handle demo_env (markDead (worker_of (answering_proc [0, 0, 0, 1, 1]) 0 0)) demo_req =
     (Some (Inl ErrWorkerDead), markDead (worker_of (answering_proc [0, 0, 0, 1, 1]) 0 0))
   \<and> Stream demo_env (markDead (worker_of (answering_proc [0, 0, 0, 1, 3]) 0 0)) demo_req new_rw =
     (Some (Inl ErrWorkerDead), markDead (worker_of (answering_proc [0, 0, 0, 1, 3]) 0 0), new_rw)
   \<and> fst (Dispatch_all demo_env
            (\<lambda>a. worker_of (answering_proc [0, 0, 0, 1, 1, 0, 0, 0, 1, 1]) 2 500)
            \<lparr>workers = [Some 0], pool_next = 0\<rparr> [demo_req, demo_req, demo_req]) =
     [Returns (Some (Inr pong)), Returns (Some (Inr pong)), Returns (Some (Inl ErrNoWorkers))]"
proof -
  have a: "Handle demo_env (markDead (worker_of (answering_proc [0, 0, 0, 1, 1]) 0 0)) demo_req =
     (Some (Inl ErrWorkerDead), markDead (worker_of (answering_proc [0, 0, 0, 1, 1]) 0 0))"
    by (simp add: Handle_def isDead_def markDead_def)
  have b: "Stream demo_env (markDead (worker_of (answering_proc [0, 0, 0, 1, 3]) 0 0)) demo_req new_rw =
     (Some (Inl ErrWorkerDead), markDead (worker_of (answering_proc [0, 0, 0, 1, 3]) 0 0), new_rw)"
    by (simp add: Stream_def isDead_def markDead_def)
  have c: "fst (Dispatch_all demo_env
            (\<lambda>a. worker_of (answering_proc [0, 0, 0, 1, 1, 0, 0, 0, 1, 1]) 2 500)
            \<lparr>workers = [Some 0], pool_next = 0\<rparr> [demo_req, demo_req, demo_req]) =
     [Returns (Some (Inr pong)), Returns (Some (Inr pong)), Returns (Some (Inl ErrNoWorkers))]"
    by (simp add: Dispatch_def NextWorker_def NextWorker_loop.simps usable_def worker_eval)
  from a b c show ?thesis by simp
qed

section \<open>Unary requests: retry on a broken pipe\<close>

lemma handleRequest_locked_fields:
  "spawned (snd (handleRequest_locked E w req)) = spawned w \<and>
   spawn (snd (handleRequest_locked E w req)) = spawn w \<and>
   maxRequests (snd (handleRequest_locked E w req)) = maxRequests w \<and>
   requestCount (snd (handleRequest_locked E w req)) = requestCount w \<and>
   inFlight (snd (handleRequest_locked E w req)) = inFlight w \<and>
   requestTimeout (snd (handleRequest_locked E w req)) = requestTimeout w \<and>
   mu_locked (snd (handleRequest_locked E w req)) = mu_locked w"
  by (simp add: handleRequest_locked_def Let_def markDead_def
           split: sum.split prod.split option.split)



lemma handleRequest_fields:
  "spawned (snd (handleRequest E w req)) = spawned w \<and>
   spawn (snd (handleRequest E w req)) = spawn w \<and>
   maxRequests (snd (handleRequest E w req)) = maxRequests w \<and>
   requestCount (snd (handleRequest E w req)) = requestCount w \<and>
   inFlight (snd (handleRequest E w req)) = inFlight w \<and>
   requestTimeout (snd (handleRequest E w req)) = requestTimeout w"
proof (cases "handleRequest_locked E (w\<lparr>mu_locked := True\<rparr>) req")
  case (Pair r w')
  with handleRequest_locked_fields [of E "w\<lparr>mu_locked := True\<rparr>" req]
  show ?thesis
    by (simp add: handleRequest_def split: option.split)
qed


lemma Handle_loop_2: "\<not> attempt < 2 \<Longrightarrow> Handle_loop E attempt w req = (Some (Inl ErrUnexpectedEOF), w)"
  by (subst Handle_loop.simps) simp

lemma Handle_loop_1:
  "Handle_loop E (Suc 0) w req =
     (case Handle_attempt E w req of
        (Continue, w') \<Rightarrow> (Some (Inl ErrUnexpectedEOF), w')
      | (Return r, w') \<Rightarrow> (r, w'))"
  by (subst Handle_loop.simps) (simp add: Handle_loop_2 split: prod.split loop.split)

lemma Handle_loop_0:
  "Handle_loop E 0 w req =
     (case Handle_attempt E w req of
        (Continue, w') \<Rightarrow> Handle_loop E (Suc 0) w' req
      | (Return r, w') \<Rightarrow> (r, w'))"
  by (subst Handle_loop.simps) (simp split: prod.split loop.split)

lemma Handle_admitted:
  "\<not> dead w \<Longrightarrow> state w \<noteq> WorkerDraining \<Longrightarrow>
   Handle E w req =
     (case Handle_loop E 0 (setState WorkerBusy (incrInFlight w)) req of
        (None, w') \<Rightarrow> (None, w')
      | (Some r, w') \<Rightarrow> (Some r, Handle_deferred w'))"
  by (simp add: Handle_def isDead_def isDraining_def)

lemma Handle_deferred_fields:
  "spawned (Handle_deferred w) = spawned w \<and> requestCount (Handle_deferred w) = requestCount w \<and>
   maxRequests (Handle_deferred w) = maxRequests w \<and> proc (Handle_deferred w) = proc w"
  by (simp add: Handle_deferred_def Let_def decrInFlight_def markDead_def setState_def)

lemma Handle_deferred_dead:
  "dead w \<Longrightarrow> dead (Handle_deferred w)"
  by (simp add: Handle_deferred_def Let_def decrInFlight_def markDead_def setState_def
        isDead_def isDraining_def getInFlight_def)

lemma markDead_fields:
  "dead (markDead w)" "state (markDead w) = WorkerDead" "spawned (markDead w) = spawned w"
  "isDead (markDead w)"
  by (simp_all add: markDead_def isDead_def)

lemma restart_ok_fields:
  "restart w = (Some None, w') \<Longrightarrow>
     spawned w' = Suc (spawned w) \<and> \<not> dead w' \<and> state w' = WorkerIdle \<and> inFlight w' = 0 \<and>
     requestCount w' = 0 \<and> maxRequests w' = maxRequests w"
  by (auto simp: restart_def Let_def split: if_splits sum.splits)

lemma HasPrefix_iff: "HasPrefix s p \<longleftrightarrow> (\<exists>post. s = p @ post)"
proof
  assume "HasPrefix s p"
  then have "s = p @ drop (length p) s"
    by (metis HasPrefix_def append_take_drop_id)
  then show "\<exists>post. s = p @ post" ..
next
  assume "\<exists>post. s = p @ post"
  then show "HasPrefix s p" by (auto simp: HasPrefix_def)
qed

lemma Contains_iff: "Contains s sub \<longleftrightarrow> (\<exists>pre post. s = pre @ sub @ post)"
proof (induction s)
  case Nil
  then show ?case by auto
next
  case (Cons c s)
  show ?case
  proof
    assume "Contains (c # s) sub"
    then consider "HasPrefix (c # s) sub" | "Contains s sub"
      by (auto split: if_splits)
    then show "\<exists>pre post. c # s = pre @ sub @ post"
    proof cases
      case 1
      then obtain post where "c # s = sub @ post" by (auto simp: HasPrefix_iff)
      then have "c # s = [] @ sub @ post" by simp
      then show ?thesis by blast
    next
      case 2
      then obtain pre post where "s = pre @ sub @ post" using Cons.IH by auto
      then have "c # s = (c # pre) @ sub @ post" by simp
      then show ?thesis by blast
    qed
  next
    assume "\<exists>pre post. c # s = pre @ sub @ post"
    then obtain pre post where eq: "c # s = pre @ sub @ post" by auto
    show "Contains (c # s) sub"
    proof (cases pre)
      case Nil
      with eq have "HasPrefix (c # s) sub" by (auto simp: HasPrefix_iff)
      then show ?thesis by simp
    next
      case (Cons a pre')
      with eq have "s = pre' @ sub @ post" by simp
      then have "Contains s sub" using Cons.IH by auto
      then show ?thesis by simp
    qed
  qed
qed

text \<open>
  Claim C4. An error is of the broken-pipe class when it is \<open>io.EOF\<close> or
  \<open>io.ErrUnexpectedEOF\<close> or its message contains \<open>broken pipe\<close>, \<open>write |1:\<close> or
  \<open>read |0:\<close>. Take a worker that \<open>Handle\<close> admits and whose first attempt fails with
  the error \<open>e\<close>. When \<open>e\<close> is not of the class, \<open>Handle\<close> returns \<open>e\<close> at
  once: nothing is restarted and there is no second attempt. When \<open>e\<close> is of the
  class, the worker is marked dead and restarted; a failed restart returns its error, and
  after a restart the request is tried a second time and no more: a second failure of
  the class returns \<open>io.ErrUnexpectedEOF\<close> and leaves the worker dead, with one restart
  made, and any other result of the second attempt is the result of \<open>Handle\<close>.
\<close>

theorem Handle_retries_once:
  "(isBrokenPipe (Some err) \<longleftrightarrow>
      err = EOF \<or> err = ErrUnexpectedEOF
      \<or> (\<exists>pre post. Error err = pre @ ''broken pipe'' @ post)
      \<or> (\<exists>pre post. Error err = pre @ ''write |1:'' @ post)
      \<or> (\<exists>pre post. Error err = pre @ ''read |0:'' @ post))
   \<and> (\<not> dead w \<and> state w \<noteq> WorkerDraining \<and>
   handleRequest E (setState WorkerBusy (incrInFlight w)) req = (Some (Inl e), w1) \<longrightarrow>
     (\<not> isBrokenPipe (Some e) \<longrightarrow>
        Handle E w req = (Some (Inl e), Handle_deferred w1) \<and>
        spawned (snd (Handle E w req)) = spawned w)
   \<and> (isBrokenPipe (Some e) \<longrightarrow>
        isDead (markDead w1) \<and>
        (\<forall>err w2. restart (markDead w1) = (Some (Some err), w2) \<longrightarrow>
           Handle E w req = (Some (Inl err), Handle_deferred w2))
        \<and> (\<forall>w2 r w3. restart (markDead w1) = (Some None, w2) \<and>
                      handleRequest E w2 req = (r, w3) \<longrightarrow>
             spawned w3 = spawned w + 1 \<and>
             (case r of
                None \<Rightarrow> Handle E w req = (None, w3)
              | Some (Inl e2) \<Rightarrow>
                  if isBrokenPipe (Some e2)
                  then Handle E w req = (Some (Inl ErrUnexpectedEOF), Handle_deferred (markDead w3))
                       \<and> dead (snd (Handle E w req))
                       \<and> spawned (snd (Handle E w req)) = spawned w + 1
                  else Handle E w req = (Some (Inl e2), Handle_deferred w3)
              | Some (Inr resp) \<Rightarrow> fst (Handle E w req) = Some (Inr resp)))))"
proof (rule conjI, goal_cases)
  case 1
  show ?case
    by (simp add: isBrokenPipe_def Let_def Contains_iff)
next
  case 2
  show ?case
proof (intro impI, elim conjE)
  assume nd: "\<not> dead w" and ndr: "state w \<noteq> WorkerDraining"
    and h1: "handleRequest E (setState WorkerBusy (incrInFlight w)) req = (Some (Inl e), w1)"
  let ?w0 = "setState WorkerBusy (incrInFlight w)"
  have nd0: "\<not> isDead ?w0"
    using nd by (simp add: isDead_def setState_def incrInFlight_def)
  have sp0: "spawned ?w0 = spawned w"
    by (simp add: setState_def incrInFlight_def)
  have sp1: "spawned w1 = spawned w"
    using handleRequest_fields [of E ?w0 req] h1 sp0 by simp
  have H: "Handle E w req =
     (case Handle_loop E 0 ?w0 req of
        (None, w') \<Rightarrow> (None, w')
      | (Some r, w') \<Rightarrow> (Some r, Handle_deferred w'))"
    using nd ndr by (rule Handle_admitted)
  show "(\<not> isBrokenPipe (Some e) \<longrightarrow>
        Handle E w req = (Some (Inl e), Handle_deferred w1) \<and>
        spawned (snd (Handle E w req)) = spawned w)
   \<and> (isBrokenPipe (Some e) \<longrightarrow>
        isDead (markDead w1) \<and>
        (\<forall>err w2. restart (markDead w1) = (Some (Some err), w2) \<longrightarrow>
           Handle E w req = (Some (Inl err), Handle_deferred w2))
        \<and> (\<forall>w2 r w3. restart (markDead w1) = (Some None, w2) \<and>
                      handleRequest E w2 req = (r, w3) \<longrightarrow>
             spawned w3 = spawned w + 1 \<and>
             (case r of
                None \<Rightarrow> Handle E w req = (None, w3)
              | Some (Inl e2) \<Rightarrow>
                  if isBrokenPipe (Some e2)
                  then Handle E w req = (Some (Inl ErrUnexpectedEOF), Handle_deferred (markDead w3))
                       \<and> dead (snd (Handle E w req))
                       \<and> spawned (snd (Handle E w req)) = spawned w + 1
                  else Handle E w req = (Some (Inl e2), Handle_deferred w3)
              | Some (Inr resp) \<Rightarrow> fst (Handle E w req) = Some (Inr resp))))"
  proof (intro conjI impI allI)
    assume nb: "\<not> isBrokenPipe (Some e)"
    have a0: "Handle_attempt E ?w0 req = (Return (Some (Inl e)), w1)"
      using nd0 h1 nb by (simp add: Handle_attempt_def)
    then show eq: "Handle E w req = (Some (Inl e), Handle_deferred w1)"
      by (simp add: H Handle_loop_0)
    show "spawned (snd (Handle E w req)) = spawned w"
      by (simp add: eq Handle_deferred_fields sp1)
  next
    assume b: "isBrokenPipe (Some e)"
    show "isDead (markDead w1)" by (rule markDead_fields)
  next
    fix err w2
    assume b: "isBrokenPipe (Some e)" and r: "restart (markDead w1) = (Some (Some err), w2)"
    have a0: "Handle_attempt E ?w0 req = (Continue, markDead w1)"
      using nd0 h1 b by (simp add: Handle_attempt_def)
    have a1: "Handle_attempt E (markDead w1) req = (Return (Some (Inl err)), w2)"
      using r by (simp add: Handle_attempt_def markDead_fields)
    show "Handle E w req = (Some (Inl err), Handle_deferred w2)"
      by (simp add: H Handle_loop_0 Handle_loop_1 a0 a1)
  next
    fix w2 r w3
    assume b: "isBrokenPipe (Some e)"
      and r: "restart (markDead w1) = (Some None, w2) \<and> handleRequest E w2 req = (r, w3)"
    have a0: "Handle_attempt E ?w0 req = (Continue, markDead w1)"
      using nd0 h1 b by (simp add: Handle_attempt_def)
    have sp2: "spawned w2 = spawned w + 1"
      using restart_ok_fields [of "markDead w1" w2] r sp1 by (simp add: markDead_fields)
    show sp3: "spawned w3 = spawned w + 1"
      using handleRequest_fields [of E w2 req] r sp2 by simp
    have L: "Handle_loop E 0 ?w0 req =
       (case Handle_attempt E (markDead w1) req of
          (Continue, w') \<Rightarrow> (Some (Inl ErrUnexpectedEOF), w')
        | (Return r, w') \<Rightarrow> (r, w'))"
      by (simp add: Handle_loop_0 Handle_loop_1 a0)
    show "case r of
                None \<Rightarrow> Handle E w req = (None, w3)
              | Some (Inl e2) \<Rightarrow>
                  if isBrokenPipe (Some e2)
                  then Handle E w req = (Some (Inl ErrUnexpectedEOF), Handle_deferred (markDead w3))
                       \<and> dead (snd (Handle E w req))
                       \<and> spawned (snd (Handle E w req)) = spawned w + 1
                  else Handle E w req = (Some (Inl e2), Handle_deferred w3)
              | Some (Inr resp) \<Rightarrow> fst (Handle E w req) = Some (Inr resp)"
    proof (cases r)
      case None
      with r have "Handle_attempt E (markDead w1) req = (Return None, w3)"
        by (simp add: Handle_attempt_def markDead_fields)
      with None show ?thesis by (simp add: H L)
    next
      case (Some x)
      show ?thesis
      proof (cases x)
        case (Inl e2)
        show ?thesis
        proof (cases "isBrokenPipe (Some e2)")
          case True
          with r Some Inl have "Handle_attempt E (markDead w1) req = (Continue, markDead w3)"
            by (simp add: Handle_attempt_def markDead_fields)
          then have eq: "Handle E w req = (Some (Inl ErrUnexpectedEOF), Handle_deferred (markDead w3))"
            by (simp add: H L)
          have "dead (Handle_deferred (markDead w3))"
            using Handle_deferred_dead [of "markDead w3"] by (simp add: markDead_fields)
          with eq Some Inl True sp3 show ?thesis
            by (simp add: Handle_deferred_fields markDead_fields)
        next
          case False
          with r Some Inl have "Handle_attempt E (markDead w1) req = (Return (Some (Inl e2)), w3)"
            by (simp add: Handle_attempt_def markDead_fields)
          with Some Inl False show ?thesis by (simp add: H L)
        qed
      next
        case (Inr resp)
        with r Some have "fst (Handle_attempt E (markDead w1) req) = Return (Some (Inr resp))"
          by (simp add: Handle_attempt_def markDead_fields Let_def)
        then obtain w4 where "Handle_attempt E (markDead w1) req = (Return (Some (Inr resp)), w4)"
          by (cases "Handle_attempt E (markDead w1) req") simp
        with Some Inr show ?thesis
          by (simp add: H L)
      qed
    qed
  qed
qed
qed

text \<open>
  The theorem at work: a child that exits without answering, and so does the one
  started in its place, gives \<open>io.ErrUnexpectedEOF\<close> after one restart and a dead worker;
  a child whose answer does not decode gives the decoding error with no restart.
\<close>

theorem Handle_retries_once_witness:
  "fst (Handle demo_env (worker_of (answering_proc []) 0 0) demo_req) = Some (Inl ErrUnexpectedEOF)
   \<and> dead (snd (Handle demo_env (worker_of (answering_proc []) 0 0) demo_req))
   \<and> spawned (snd (Handle demo_env (worker_of (answering_proc []) 0 0) demo_req)) = 2
   \<and> fst (Handle demo_env (worker_of (answering_proc [0, 0, 0, 1, 255]) 0 0) demo_req)
       = Some (Inl (ErrOther ''invalid character''))
   \<and> spawned (snd (Handle demo_env (worker_of (answering_proc [0, 0, 0, 1, 255]) 0 0) demo_req)) = 1"
proof -
  let ?w = "worker_of (answering_proc []) 0 0"
  let ?v = "worker_of (answering_proc [0, 0, 0, 1, 255]) 0 0"
  define w1 where "w1 = snd (handleRequest demo_env (setState WorkerBusy (incrInFlight ?w)) demo_req)"
  define w2 where "w2 = snd (restart (markDead w1))"
  define w3 where "w3 = snd (handleRequest demo_env w2 demo_req)"
  define v1 where "v1 = snd (handleRequest demo_env (setState WorkerBusy (incrInFlight ?v)) demo_req)"
  have adm: "\<not> dead ?w" "state ?w \<noteq> WorkerDraining" "\<not> dead ?v" "state ?v \<noteq> WorkerDraining"
    "spawned ?w = 1" "spawned ?v = 1"
    by (simp_all add: worker_of_def)
  have h1: "handleRequest demo_env (setState WorkerBusy (incrInFlight ?w)) demo_req = (Some (Inl EOF), w1)"
    unfolding w1_def by (simp add: worker_eval)
  have r: "restart (markDead w1) = (Some None, w2)"
    unfolding w2_def w1_def by (simp add: worker_eval)
  have h2: "handleRequest demo_env w2 demo_req = (Some (Inl EOF), w3)"
    unfolding w3_def w2_def w1_def by (simp add: worker_eval)
  have bp: "isBrokenPipe (Some EOF)" "\<not> isBrokenPipe (Some (ErrOther ''invalid character''))"
    by (simp_all add: isBrokenPipe_def HasPrefix_def)
  have k1: "handleRequest demo_env (setState WorkerBusy (incrInFlight ?v)) demo_req
              = (Some (Inl (ErrOther ''invalid character'')), v1)"
    unfolding v1_def by (simp add: worker_eval)
  have A: "Handle demo_env ?w demo_req = (Some (Inl ErrUnexpectedEOF), Handle_deferred (markDead w3))
           \<and> dead (snd (Handle demo_env ?w demo_req))
           \<and> spawned (snd (Handle demo_env ?w demo_req)) = spawned ?w + 1"
    using Handle_retries_once [of EOF ?w demo_env demo_req EOF w1, THEN conjunct2] adm h1 bp r h2
    by (auto split: option.splits sum.splits if_splits)
  have B: "Handle demo_env ?v demo_req = (Some (Inl (ErrOther ''invalid character'')), Handle_deferred v1)
           \<and> spawned (snd (Handle demo_env ?v demo_req)) = spawned ?v"
    using Handle_retries_once [of EOF ?v demo_env demo_req "ErrOther ''invalid character''" v1,
        THEN conjunct2] adm(3,4) k1 bp(2)
    by blast
  have "fst (Handle demo_env ?w demo_req) = Some (Inl ErrUnexpectedEOF)"
    unfolding A [THEN conjunct1] by simp
  moreover have "dead (snd (Handle demo_env ?w demo_req))"
    by (rule A [THEN conjunct2, THEN conjunct1])
  moreover have "spawned (snd (Handle demo_env ?w demo_req)) = 2"
    using A [THEN conjunct2, THEN conjunct2] adm(5) by simp
  moreover have "fst (Handle demo_env ?v demo_req) = Some (Inl (ErrOther ''invalid character''))"
    unfolding B [THEN conjunct1] by simp
  moreover have "spawned (snd (Handle demo_env ?v demo_req)) = 1"
    using B [THEN conjunct2] adm(6) by simp
  ultimately show ?thesis by blast
qed

section \<open>Unary requests: the limit on the requests of one child\<close>















section \<open>Frame lengths\<close>

text \<open>The length that is written is the length that is read.\<close>

lemma Uint32_PutUint32: "Uint32 (PutUint32 v) = v"
  unfolding Uint32_def PutUint32_def
  apply simp
  apply (rule bit_eqI)
  apply (auto simp add: bit_simps)
  subgoal for n by (cases "16 \<le> n") auto
  subgoal for n by (cases "24 \<le> n"; cases "16 \<le> n") auto
  done









section \<open>Streaming: the relay of frames\<close>















end
